theory Spec2Isabelle
  imports Main "HOL-Library.AList"
begin

section \<open>Lazily evaluated command graph calls (libqtile/lazy.py)\<close>

text \<open>
  The theory embeds the two classes of \<^verbatim>\<open>libqtile/lazy.py\<close>: \<^verbatim>\<open>LazyCall\<close>, a command
  graph call stored for later together with its activation rules, and
  \<^verbatim>\<open>LazyCommandObject\<close>, the command interface that creates such calls.

  Python objects are mutable and handed around by reference. A method is therefore modelled
  twice: as a function on the fields of \<^verbatim>\<open>self\<close> that returns the fields after the call,
  and, where the identity of the object matters, as a function on a store of objects that
  takes and returns references.
\<close>

subsection \<open>The objects a call reads\<close>

text \<open>
  The classes below are imported by \<^verbatim>\<open>lazy.py\<close>; only the attributes that the module
  reads are kept: \<^verbatim>\<open>q.current_layout.name\<close>, \<^verbatim>\<open>q.current_window\<close> (which may be
  \<^verbatim>\<open>None\<close>), \<^verbatim>\<open>q.current_window.floating\<close>, \<^verbatim>\<open>q.current_group.name\<close> (used by the
  predicates of the docstring of \<^verbatim>\<open>when\<close>), and \<^verbatim>\<open>call.selectors\<close>, \<^verbatim>\<open>call.name\<close>.
\<close>

record Layout =
  name :: string

record Window =
  floating :: bool

record Group =
  name :: string

record Qtile =
  current_layout :: Layout
  current_window :: "Window option"
  current_group :: Group

datatype Item = ItemStr string | ItemInt int

type_synonym SelectorType = "string \<times> Item option"

record CommandGraphCall =
  selectors :: "SelectorType list"
  name :: string

subsection \<open>Exceptions and predicates\<close>

text \<open>
  \<^verbatim>\<open>KeyError\<close> is what indexing a \<^verbatim>\<open>dict\<close> with a missing key raises; \<^verbatim>\<open>Raised\<close> stands
  for any exception that a predicate written by the user raises.
\<close>

datatype exn = KeyError string | Raised string

text \<open>
  A predicate is a Python callable taking the \<^verbatim>\<open>Qtile\<close> object. It may raise, and it may
  have effects; \<open>'w\<close> is the part of the world that it can read and write. The fields of
  the \<^verbatim>\<open>LazyCall\<close> that holds the predicate are not part of \<open>'w\<close>.
\<close>

type_synonym 'w Predicate = "Qtile \<Rightarrow> 'w \<Rightarrow> (exn + bool) \<times> 'w"

text \<open>\<^verbatim>\<open>lambda q: True\<close>\<close>

definition lambda_True :: "'w Predicate" where
  "lambda_True q w = (Inr True, w)"

subsection \<open>The rule table\<close>

text \<open>
  \<^verbatim>\<open>self._layout_rules\<close> is a \<^verbatim>\<open>defaultdict(dict)\<close>. Its values are dictionaries whose
  only keys ever written are \<^verbatim>\<open>"when_floating"\<close> and \<^verbatim>\<open>"filter"\<close>: such a dictionary is a
  record of two optional entries, \<open>None\<close> for a key that is absent. The table is an
  association list in insertion order, as a Python \<^verbatim>\<open>dict\<close> is.
\<close>

record 'w Rule =
  rule_when_floating :: "bool option"
  rule_filter :: "'w Predicate option"

text \<open>\<^verbatim>\<open>dict()\<close>, the default factory of the table.\<close>

definition dict_empty :: "'w Rule" where
  "dict_empty = \<lparr>rule_when_floating = None, rule_filter = None\<rparr>"

type_synonym 'w Rules = "(string \<times> 'w Rule) list"

text \<open>\<^verbatim>\<open>k in d\<close>\<close>

definition contains :: "'w Rules \<Rightarrow> string \<Rightarrow> bool" where
  "contains d k = (k \<in> set (map fst d))"

text \<open>
  \<^verbatim>\<open>d[k]\<close> on a \<^verbatim>\<open>defaultdict\<close>: a missing key is inserted with the value of the factory,
  which is then returned. The result is the value and the table after the access.
\<close>

definition defaultdict_getitem :: "'w Rules \<Rightarrow> string \<Rightarrow> 'w Rule \<times> 'w Rules" where
  "defaultdict_getitem d k =
     (case map_of d k of
        Some r \<Rightarrow> (r, d)
      | None \<Rightarrow> (dict_empty, d @ [(k, dict_empty)]))"

subsection \<open>LazyCall\<close>

text \<open>
  \<^verbatim>\<open>self._filter\<close> holds either the bound method \<^verbatim>\<open>self._default_filter\<close>, which reads
  the rule table of \<^verbatim>\<open>self\<close> at the time it is called, or a callable of the user.
\<close>

datatype 'w Filter = BoundDefaultFilter | UserFilter "'w Predicate"

record ('a, 'w) LazyCall =
  self_call :: CommandGraphCall
  self_args :: "'a list"
  self_kwargs :: "(string \<times> 'a) list"
  self_layout_rules :: "'w Rules"
  self_when_floating :: bool
  self_filter :: "'w Filter"

text \<open>\<^verbatim>\<open>LazyCall.__init__\<close>\<close>

definition init :: "CommandGraphCall \<Rightarrow> 'a list \<Rightarrow> (string \<times> 'a) list \<Rightarrow> ('a, 'w) LazyCall" where
  "init call args kwargs =
     \<lparr>self_call = call, self_args = args, self_kwargs = kwargs,
      self_layout_rules = [], self_when_floating = True, self_filter = BoundDefaultFilter\<rparr>"

text \<open>The properties \<^verbatim>\<open>selectors\<close>, \<^verbatim>\<open>name\<close>, \<^verbatim>\<open>args\<close> and \<^verbatim>\<open>kwargs\<close>.\<close>

definition LazyCall_selectors :: "('a, 'w) LazyCall \<Rightarrow> SelectorType list" where
  "LazyCall_selectors self = CommandGraphCall.selectors (self_call self)"

definition LazyCall_name :: "('a, 'w) LazyCall \<Rightarrow> string" where
  "LazyCall_name self = CommandGraphCall.name (self_call self)"

definition LazyCall_args :: "('a, 'w) LazyCall \<Rightarrow> 'a list" where
  "LazyCall_args self = self_args self"

definition LazyCall_kwargs :: "('a, 'w) LazyCall \<Rightarrow> (string \<times> 'a) list" where
  "LazyCall_kwargs self = self_kwargs self"

text \<open>
  \<^verbatim>\<open>LazyCall.when\<close>. The arguments are given in full: the defaults of the source are
  \<^verbatim>\<open>layout=None\<close>, \<^verbatim>\<open>when_floating=True\<close>, \<^verbatim>\<open>filt=None\<close>. In \<^verbatim>\<open>filt or ...\<close> the value
  \<^verbatim>\<open>None\<close> is false and a callable is true. Each of the two assignments of the first
  branch indexes the table, then stores into the dictionary it got; that dictionary is
  the one held by the table, so the store is a write to the entry of the key.
\<close>

definition "when" ::
  "string option \<Rightarrow> bool \<Rightarrow> 'w Predicate option \<Rightarrow> ('a, 'w) LazyCall \<Rightarrow> ('a, 'w) LazyCall" where
  "when layout when_floating filt self =
     (case layout of
        Some l \<Rightarrow>
          (let (r1, d1) = defaultdict_getitem (self_layout_rules self) l;
               d2 = AList.update l (r1\<lparr>rule_when_floating := Some when_floating\<rparr>) d1;
               (r2, d3) = defaultdict_getitem d2 l;
               d4 = AList.update l
                      (r2\<lparr>rule_filter := Some (case filt of Some f \<Rightarrow> f | None \<Rightarrow> lambda_True)\<rparr>) d3
           in self\<lparr>self_layout_rules := d4\<rparr>)
      | None \<Rightarrow>
          self\<lparr>self_when_floating := when_floating,
               self_filter := (case filt of Some f \<Rightarrow> UserFilter f | None \<Rightarrow> BoundDefaultFilter)\<rparr>)"

text \<open>
  \<^verbatim>\<open>LazyCall._default_filter\<close>. The operand \<^verbatim>\<open>self._layout_rules\<close> of \<^verbatim>\<open>and\<close> is true
  when the table is not empty.
\<close>

definition default_filter :: "('a, 'w) LazyCall \<Rightarrow> Qtile \<Rightarrow> bool" where
  "default_filter self q =
     (\<not> (self_layout_rules self \<noteq> [] \<and>
         \<not> contains (self_layout_rules self) (Layout.name (current_layout q))))"

text \<open>\<^verbatim>\<open>self._filter(q)\<close>\<close>

definition call_filter :: "('a, 'w) LazyCall \<Rightarrow> 'w Predicate" where
  "call_filter self q w =
     (case self_filter self of
        BoundDefaultFilter \<Rightarrow> (Inr (default_filter self q), w)
      | UserFilter f \<Rightarrow> f q w)"

text \<open>
  \<^verbatim>\<open>self._layout_rules[cur_layout]["when_floating"]\<close> and
  \<^verbatim>\<open>self._layout_rules[cur_layout]["filter"]\<close>: the table is indexed, which may insert,
  then the dictionary found is indexed, which raises \<^verbatim>\<open>KeyError\<close> for a missing key.
\<close>

definition layout_rules_when_floating ::
  "('a, 'w) LazyCall \<Rightarrow> string \<Rightarrow> (exn + bool) \<times> ('a, 'w) LazyCall" where
  "layout_rules_when_floating self k =
     (let (r, d) = defaultdict_getitem (self_layout_rules self) k;
          self' = self\<lparr>self_layout_rules := d\<rparr>
      in case rule_when_floating r of
           None \<Rightarrow> (Inl (KeyError ''when_floating''), self')
         | Some b \<Rightarrow> (Inr b, self'))"

definition layout_rules_filter ::
  "('a, 'w) LazyCall \<Rightarrow> string \<Rightarrow> (exn + 'w Predicate) \<times> ('a, 'w) LazyCall" where
  "layout_rules_filter self k =
     (let (r, d) = defaultdict_getitem (self_layout_rules self) k;
          self' = self\<lparr>self_layout_rules := d\<rparr>
      in case rule_filter r of
           None \<Rightarrow> (Inl (KeyError ''filter''), self')
         | Some f \<Rightarrow> (Inr f, self'))"

text \<open>
  \<^verbatim>\<open>self._layout_rules[cur_layout]["filter"](q)\<close>: the filter of the rule is looked up
  and called.
\<close>

definition call_layout_filter ::
  "('a, 'w) LazyCall \<Rightarrow> string \<Rightarrow> Qtile \<Rightarrow> 'w \<Rightarrow> (exn + bool) \<times> ('a, 'w) LazyCall \<times> 'w" where
  "call_layout_filter self k q w =
     (case layout_rules_filter self k of
        (Inl e, self') \<Rightarrow> (Inl e, self', w)
      | (Inr f, self') \<Rightarrow> (case f q w of (res, w') \<Rightarrow> (res, self', w')))"

text \<open>
  \<^verbatim>\<open>LazyCall.check\<close>. The result is the value returned or the exception raised, the fields
  of \<^verbatim>\<open>self\<close> after the call, and the world after the call. \<^verbatim>\<open>a and b\<close> evaluates \<^verbatim>\<open>b\<close>
  only when \<^verbatim>\<open>a\<close> is true, and is \<^verbatim>\<open>a\<close> otherwise; \<^verbatim>\<open>q.current_window\<close> is false when
  it is \<^verbatim>\<open>None\<close>.
\<close>

definition check ::
  "('a, 'w) LazyCall \<Rightarrow> Qtile \<Rightarrow> 'w \<Rightarrow> (exn + bool) \<times> ('a, 'w) LazyCall \<times> 'w" where
  "check self q w =
     (let cur_layout = Layout.name (current_layout q) in
      if (case current_window q of None \<Rightarrow> False | Some win \<Rightarrow> floating win) then
        if contains (self_layout_rules self) cur_layout then
          (case layout_rules_when_floating self cur_layout of
             (Inl e, self') \<Rightarrow> (Inl e, self', w)
           | (Inr b, self') \<Rightarrow>
               if b then call_layout_filter self' cur_layout q w
               else (Inr False, self', w))
        else
          if self_when_floating self
          then (case call_filter self q w of (res, w') \<Rightarrow> (res, self, w'))
          else (Inr False, self, w)
      else if contains (self_layout_rules self) cur_layout then
        call_layout_filter self cur_layout q w
      else
        (case call_filter self q w of (res, w') \<Rightarrow> (res, self, w')))"

subsection \<open>LazyCommandObject and the store of objects\<close>

text \<open>
  The store holds the \<^verbatim>\<open>LazyCall\<close> objects created so far; a reference is the position
  of an object in it. Creating an object appends it, so that its reference is one that no
  earlier object has.
\<close>

type_synonym ref = nat

type_synonym ('a, 'w) store = "('a, 'w) LazyCall list"

text \<open>\<^verbatim>\<open>LazyCommandObject.execute\<close>: \<^verbatim>\<open>return LazyCall(call, args, kwargs)\<close>\<close>

definition execute ::
  "CommandGraphCall \<Rightarrow> 'a list \<Rightarrow> (string \<times> 'a) list \<Rightarrow> ('a, 'w) store \<Rightarrow> ref \<times> ('a, 'w) store" where
  "execute call args kwargs s = (length s, s @ [init call args kwargs])"

text \<open>\<^verbatim>\<open>LazyCommandObject.has_command\<close> and \<^verbatim>\<open>LazyCommandObject.has_item\<close>\<close>

definition has_command :: "'n \<Rightarrow> string \<Rightarrow> bool" where
  "has_command node command = True"

definition has_item :: "'n \<Rightarrow> string \<Rightarrow> Item \<Rightarrow> bool" where
  "has_item node object_type item = True"

text \<open>
  \<^verbatim>\<open>obj.when(...)\<close> for the object that \<open>self\<close> refers to: its fields are updated in the
  store and \<^verbatim>\<open>return self\<close> gives the reference back. In Python \<open>self\<close> is always an
  object that exists, that is \<open>self < length s\<close>; for any other number the update below
  leaves the store as it is.
\<close>

definition when_method ::
  "ref \<Rightarrow> string option \<Rightarrow> bool \<Rightarrow> 'w Predicate option \<Rightarrow> ('a, 'w) store \<Rightarrow> ref \<times> ('a, 'w) store" where
  "when_method self layout when_floating filt s =
     (self, s[self := when layout when_floating filt (s ! self)])"

subsection \<open>Chains of calls, well-formed tables and example values\<close>

text \<open>
  \<^verbatim>\<open>cmd.when(...).when(...)\<close>: a chain of calls of \<^verbatim>\<open>when\<close>, each given by its three
  arguments, applied from left to right.
\<close>

fun when_chain ::
  "(string option \<times> bool \<times> 'w Predicate option) list \<Rightarrow> ('a, 'w) LazyCall \<Rightarrow> ('a, 'w) LazyCall" where
  "when_chain [] self = self"
| "when_chain ((layout, when_floating, filt) # cs) self =
     when_chain cs (when layout when_floating filt self)"

text \<open>
  A rule table is complete when each of its dictionaries has both keys. This is the
  invariant of the table of every object made by the constructor and changed by
  \<^verbatim>\<open>when\<close> only.
\<close>

definition rules_complete :: "'w Rules \<Rightarrow> bool" where
  "rules_complete d =
     (\<forall>(k, r) \<in> set d. rule_when_floating r \<noteq> None \<and> rule_filter r \<noteq> None)"

text \<open>
  Values for the examples: the call \<^verbatim>\<open>lazy.layout.next()\<close>, a state built from a layout
  name, a window and a group name, the predicate \<^verbatim>\<open>lambda q: q.current_group.name == 'a'\<close>
  of the docstring of \<^verbatim>\<open>when\<close> and a predicate that raises. In the examples the world is
  a counter of the calls of predicates.
\<close>

definition cmd :: CommandGraphCall where
  "cmd = \<lparr>selectors = [(''layout'', None)], name = ''next''\<rparr>"

definition state :: "string \<Rightarrow> Window option \<Rightarrow> string \<Rightarrow> Qtile" where
  "state l win g =
     \<lparr>current_layout = \<lparr>Layout.name = l\<rparr>, current_window = win,
      current_group = \<lparr>Group.name = g\<rparr>\<rparr>"

definition in_group_a :: "nat Predicate" where
  "in_group_a q w = (Inr (Group.name (current_group q) = ''a''), Suc w)"

definition failing :: "nat Predicate" where
  "failing q w = (Inl (Raised ''failing''), Suc w)"

definition fresh :: "(string, nat) LazyCall" where
  "fresh = init cmd [] []"

section \<open>Properties\<close>

subsection \<open>The table and \<^verbatim>\<open>when\<close>\<close>

lemma contains_map_of: "contains d k \<longleftrightarrow> map_of d k \<noteq> None"
  by (simp add: contains_def map_of_eq_None_iff)

lemma defaultdict_getitem_present:
  "map_of d k = Some r \<Longrightarrow> defaultdict_getitem d k = (r, d)"
  by (simp add: defaultdict_getitem_def)

lemma defaultdict_getitem_missing:
  "map_of d k = None \<Longrightarrow> defaultdict_getitem d k = (dict_empty, d @ [(k, dict_empty)])"
  by (simp add: defaultdict_getitem_def)

text \<open>Indexing the table with a key that it does not have does change it.\<close>

lemma defaultdict_getitem_inserts:
  "\<not> contains d k \<Longrightarrow> contains (snd (defaultdict_getitem d k)) k"
  by (simp add: contains_map_of defaultdict_getitem_missing)

lemma update_appended:
  "map_of d k = None \<Longrightarrow> AList.update k v (d @ [(k, v')]) = AList.update k v d"
  by (induction d) (auto split: if_splits)

lemma rule_overwrite:
  "(r :: 'w Rule)\<lparr>rule_when_floating := a, rule_filter := b\<rparr> =
     \<lparr>rule_when_floating = a, rule_filter = b\<rparr>"
  by (cases r) simp

text \<open>
  Whether the key was there or not, the two assignments of \<^verbatim>\<open>when\<close> leave a dictionary
  with exactly the two keys at the layout.
\<close>

lemma when_layout:
  "when (Some l) when_floating filt self =
     self\<lparr>self_layout_rules :=
            AList.update l
              \<lparr>rule_when_floating = Some when_floating,
               rule_filter = Some (case filt of Some f \<Rightarrow> f | None \<Rightarrow> lambda_True)\<rparr>
              (self_layout_rules self)\<rparr>"
proof (cases "map_of (self_layout_rules self) l")
  case None
  then show ?thesis
    by (simp add: when_def defaultdict_getitem_missing update_appended
        defaultdict_getitem_present update_conv' dict_empty_def)
next
  case (Some r)
  then show ?thesis
    by (simp add: when_def defaultdict_getitem_present update_conv' rule_overwrite)
qed

lemma when_global:
  "when None when_floating filt self =
     self\<lparr>self_when_floating := when_floating,
          self_filter := (case filt of Some f \<Rightarrow> UserFilter f | None \<Rightarrow> BoundDefaultFilter)\<rparr>"
  by (simp add: when_def)

subsection \<open>The invariant of the table\<close>

lemma rules_complete_Nil: "rules_complete []"
  by (simp add: rules_complete_def)

lemma rules_complete_update:
  "rules_complete d \<Longrightarrow> rule_when_floating r \<noteq> None \<Longrightarrow> rule_filter r \<noteq> None \<Longrightarrow>
   rules_complete (AList.update k r d)"
  by (induction d) (auto simp: rules_complete_def)

lemma rules_complete_when:
  "rules_complete (self_layout_rules self) \<Longrightarrow>
   rules_complete (self_layout_rules (when layout when_floating filt self))"
  by (cases layout) (simp_all add: when_global when_layout rules_complete_update)

lemma rules_complete_when_chain:
  "rules_complete (self_layout_rules self) \<Longrightarrow>
   rules_complete (self_layout_rules (when_chain cs self))"
  by (induction cs self rule: when_chain.induct) (simp_all add: rules_complete_when)

lemma rules_complete_reachable:
  "rules_complete (self_layout_rules (when_chain cs (init call args kwargs)))"
  by (rule rules_complete_when_chain) (simp add: init_def rules_complete_Nil)

lemma rules_complete_lookup:
  assumes "rules_complete d" and "contains d k"
  shows "\<exists>fl p. map_of d k = Some \<lparr>rule_when_floating = Some fl, rule_filter = Some p\<rparr>"
proof -
  from assms(2) obtain r where r: "map_of d k = Some r"
    by (auto simp: contains_map_of)
  then have "(k, r) \<in> set d"
    by (rule map_of_SomeD)
  with assms(1) obtain fl p where "rule_when_floating r = Some fl" and "rule_filter r = Some p"
    by (auto simp: rules_complete_def)
  then have "r = \<lparr>rule_when_floating = Some fl, rule_filter = Some p\<rparr>"
    by (cases r) simp
  with r show ?thesis by blast
qed

text \<open>
  The global filter is the default one after any chain of calls of which none passes
  \<^verbatim>\<open>filt\<close> without \<^verbatim>\<open>layout\<close>.
\<close>

lemma filter_default_when_chain:
  "self_filter self = BoundDefaultFilter \<Longrightarrow>
   \<forall>(layout, when_floating, filt) \<in> set cs. layout = None \<longrightarrow> filt = None \<Longrightarrow>
   self_filter (when_chain cs self) = BoundDefaultFilter"
proof (induction cs self rule: when_chain.induct)
  case (1 self)
  then show ?case by simp
next
  case (2 layout when_floating filt cs self)
  from 2(2,3) have "self_filter (when layout when_floating filt self) = BoundDefaultFilter"
    by (cases layout) (simp_all add: when_global when_layout)
  with 2 show ?case by simp
qed

subsection \<open>The four branches of \<^verbatim>\<open>check\<close>\<close>

lemma layout_rules_when_floating_present:
  "map_of (self_layout_rules self) k = Some r \<Longrightarrow>
   layout_rules_when_floating self k =
     (case rule_when_floating r of
        None \<Rightarrow> Inl (KeyError ''when_floating'') | Some b \<Rightarrow> Inr b, self)"
  by (simp add: layout_rules_when_floating_def defaultdict_getitem_present split: option.splits)

lemma layout_rules_filter_present:
  "map_of (self_layout_rules self) k = Some r \<Longrightarrow>
   layout_rules_filter self k =
     (case rule_filter r of None \<Rightarrow> Inl (KeyError ''filter'') | Some f \<Rightarrow> Inr f, self)"
  by (simp add: layout_rules_filter_def defaultdict_getitem_present split: option.splits)

lemma call_layout_filter_present:
  "map_of (self_layout_rules self) k = Some r \<Longrightarrow> rule_filter r = Some f \<Longrightarrow>
   call_layout_filter self k q w = (fst (f q w), self, snd (f q w))"
  by (simp add: call_layout_filter_def layout_rules_filter_present split: prod.splits)

lemma check_floating_rule:
  assumes "map_of (self_layout_rules self) (Layout.name (current_layout q)) = Some r"
    and "rule_when_floating r = Some fl" and "rule_filter r = Some f"
    and "current_window q = Some win" and "floating win"
  shows "check self q w = (if fl then (fst (f q w), self, snd (f q w)) else (Inr False, self, w))"
  using assms
  by (simp add: check_def contains_map_of layout_rules_when_floating_present
      call_layout_filter_present)

lemma check_tiled_rule:
  assumes "map_of (self_layout_rules self) (Layout.name (current_layout q)) = Some r"
    and "rule_filter r = Some f"
    and "\<not> (case current_window q of None \<Rightarrow> False | Some win \<Rightarrow> floating win)"
  shows "check self q w = (fst (f q w), self, snd (f q w))"
  using assms
  by (simp add: check_def contains_map_of call_layout_filter_present)

lemma check_floating_global:
  assumes "\<not> contains (self_layout_rules self) (Layout.name (current_layout q))"
    and "current_window q = Some win" and "floating win"
  shows "check self q w =
           (if self_when_floating self
            then (fst (call_filter self q w), self, snd (call_filter self q w))
            else (Inr False, self, w))"
  using assms by (simp add: check_def split: prod.splits)

lemma check_tiled_global:
  assumes "\<not> contains (self_layout_rules self) (Layout.name (current_layout q))"
    and "\<not> (case current_window q of None \<Rightarrow> False | Some win \<Rightarrow> floating win)"
  shows "check self q w = (fst (call_filter self q w), self, snd (call_filter self q w))"
  using assms by (simp add: check_def split: prod.splits)

section \<open>The claims\<close>

text \<open>
  C1. Let the current window be absent or not floating and let the current layout have no
  rule. If the global filter is the default one (no explicit global filter was set),
  \<^verbatim>\<open>check\<close> returns \<^verbatim>\<open>False\<close> exactly when the rule table is not empty and the current
  layout name is not a key of it, and \<^verbatim>\<open>True\<close> otherwise, in particular for an empty
  table. If a global filter \<open>f\<close> was set, \<^verbatim>\<open>check\<close> returns what \<open>f\<close> returns.
\<close>

theorem default_global_filter:
  assumes "\<not> (case current_window q of None \<Rightarrow> False | Some win \<Rightarrow> floating win)"
    and "\<not> contains (self_layout_rules self) (Layout.name (current_layout q))"
  shows "(self_filter self = BoundDefaultFilter \<longrightarrow>
            check self q w =
              (Inr (\<not> (self_layout_rules self \<noteq> [] \<and>
                        \<not> contains (self_layout_rules self) (Layout.name (current_layout q)))),
               self, w)) \<and>
         (\<forall>f. self_filter self = UserFilter f \<longrightarrow>
            check self q w = (fst (f q w), self, snd (f q w)))"
  using assms by (simp add: check_tiled_global call_filter_def default_filter_def)

theorem default_global_filter_witness:
  "check (when (Some ''columns'') True None fresh) (state ''monadtall'' None ''a'') 0 =
     (Inr False, when (Some ''columns'') True None fresh, 0) \<and>
   check fresh (state ''monadtall'' None ''a'') 0 = (Inr True, fresh, 0) \<and>
   check (when None True (Some in_group_a) (when (Some ''columns'') True None fresh))
       (state ''monadtall'' (Some \<lparr>floating = False\<rparr>) ''a'') 0 =
     (Inr True, when None True (Some in_group_a) (when (Some ''columns'') True None fresh), 1)"
  using
    default_global_filter [of "state ''monadtall'' None ''a''"
      "when (Some ''columns'') True None fresh" 0]
    default_global_filter [of "state ''monadtall'' None ''a''" fresh 0]
    default_global_filter [of "state ''monadtall'' (Some \<lparr>floating = False\<rparr>) ''a''"
      "when None True (Some in_group_a) (when (Some ''columns'') True None fresh)" 0]
  by (simp add: when_layout when_global fresh_def init_def state_def contains_def in_group_a_def)

text \<open>
  C2. Let the table hold the rule with flag \<open>fl\<close> and filter \<open>f\<close> for the current layout, and
  let the current window exist and be floating. Then \<^verbatim>\<open>check\<close> is \<open>fl\<close> and-ed with the
  result of \<open>f\<close>: for a true flag it is the outcome of calling \<open>f\<close>, and for a false flag
  it is \<^verbatim>\<open>False\<close> with the world left as it was, whatever \<open>f\<close> is, so \<open>f\<close> is not called.
\<close>

theorem floating_window_in_ruled_layout:
  assumes "map_of (self_layout_rules self) (Layout.name (current_layout q)) =
             Some \<lparr>rule_when_floating = Some fl, rule_filter = Some f\<rparr>"
    and "current_window q = Some win" and "floating win"
  shows "check self q w = (if fl then (fst (f q w), self, snd (f q w)) else (Inr False, self, w)) \<and>
         (\<forall>b. fst (f q w) = Inr b \<longrightarrow> fst (check self q w) = Inr (fl \<and> b)) \<and>
         (\<not> fl \<longrightarrow> check self q w = (Inr False, self, w))"
  using check_floating_rule [OF assms(1) _ _ assms(2,3), of fl f w] by simp

theorem floating_window_in_ruled_layout_witness:
  "check (when (Some ''columns'') False (Some failing) fresh)
       (state ''columns'' (Some \<lparr>floating = True\<rparr>) ''a'') 0 =
     (Inr False, when (Some ''columns'') False (Some failing) fresh, 0) \<and>
   check (when (Some ''columns'') True (Some in_group_a) fresh)
       (state ''columns'' (Some \<lparr>floating = True\<rparr>) ''b'') 0 =
     (Inr False, when (Some ''columns'') True (Some in_group_a) fresh, 1) \<and>
   check (when (Some ''columns'') True (Some in_group_a) fresh)
       (state ''columns'' (Some \<lparr>floating = True\<rparr>) ''a'') 0 =
     (Inr True, when (Some ''columns'') True (Some in_group_a) fresh, 1)"
  using
    floating_window_in_ruled_layout [of "when (Some ''columns'') False (Some failing) fresh"
      "state ''columns'' (Some \<lparr>floating = True\<rparr>) ''a''" False failing
      "\<lparr>floating = True\<rparr>" 0]
    floating_window_in_ruled_layout [of "when (Some ''columns'') True (Some in_group_a) fresh"
      "state ''columns'' (Some \<lparr>floating = True\<rparr>) ''b''" True in_group_a
      "\<lparr>floating = True\<rparr>" 0]
    floating_window_in_ruled_layout [of "when (Some ''columns'') True (Some in_group_a) fresh"
      "state ''columns'' (Some \<lparr>floating = True\<rparr>) ''a''" True in_group_a
      "\<lparr>floating = True\<rparr>" 0]
  by (simp add: when_layout fresh_def init_def state_def in_group_a_def)

text \<open>
  C3. Let the table hold the rule with flag \<open>fl\<close> and filter \<open>f\<close> for the current layout, and
  let the current window be absent or not floating. Then \<^verbatim>\<open>check\<close> is the outcome of
  calling \<open>f\<close>, for either value of \<open>fl\<close>.
\<close>

theorem tiled_window_in_ruled_layout:
  assumes "map_of (self_layout_rules self) (Layout.name (current_layout q)) =
             Some \<lparr>rule_when_floating = Some fl, rule_filter = Some f\<rparr>"
    and "\<not> (case current_window q of None \<Rightarrow> False | Some win \<Rightarrow> floating win)"
  shows "check self q w = (fst (f q w), self, snd (f q w))"
  using check_tiled_rule [OF assms(1) _ assms(2), of f w] by simp

theorem tiled_window_in_ruled_layout_witness:
  "check (when (Some ''columns'') False (Some in_group_a) fresh)
       (state ''columns'' None ''a'') 0 =
     (Inr True, when (Some ''columns'') False (Some in_group_a) fresh, 1) \<and>
   check (when (Some ''columns'') True (Some in_group_a) fresh)
       (state ''columns'' (Some \<lparr>floating = False\<rparr>) ''b'') 0 =
     (Inr False, when (Some ''columns'') True (Some in_group_a) fresh, 1)"
  using
    tiled_window_in_ruled_layout [of "when (Some ''columns'') False (Some in_group_a) fresh"
      "state ''columns'' None ''a''" False in_group_a 0]
    tiled_window_in_ruled_layout [of "when (Some ''columns'') True (Some in_group_a) fresh"
      "state ''columns'' (Some \<lparr>floating = False\<rparr>) ''b''" True in_group_a 0]
  by (simp add: when_layout fresh_def init_def state_def in_group_a_def)

text \<open>
  C4. Let the current window exist and be floating and let the current layout have no rule.
  Then \<^verbatim>\<open>check\<close> is the global flag and-ed with the result of the global filter; after
  \<^verbatim>\<open>when(when_floating=False)\<close> without a layout it is \<^verbatim>\<open>False\<close> in every such state.
\<close>

theorem floating_window_without_rule:
  assumes "current_window q = Some win" and "floating win"
    and "\<not> contains (self_layout_rules self) (Layout.name (current_layout q))"
  shows "check self q w =
           (if self_when_floating self
            then (fst (call_filter self q w), self, snd (call_filter self q w))
            else (Inr False, self, w)) \<and>
         (\<forall>b. fst (call_filter self q w) = Inr b \<longrightarrow>
            fst (check self q w) = Inr (self_when_floating self \<and> b)) \<and>
         check (when None False filt self) q w = (Inr False, when None False filt self, w)"
proof -
  have "\<not> contains (self_layout_rules (when None False filt self)) (Layout.name (current_layout q))"
    using assms(3) by (simp add: when_global)
  then have "check (when None False filt self) q w = (Inr False, when None False filt self, w)"
    using assms(1,2) by (simp add: check_floating_global) (simp add: when_global)
  then show ?thesis
    using assms by (simp add: check_floating_global)
qed

theorem floating_window_without_rule_witness:
  "check (when None False None fresh) (state ''x'' (Some \<lparr>floating = True\<rparr>) ''a'') 0 =
     (Inr False, when None False None fresh, 0) \<and>
   check (when None True (Some in_group_a) (when (Some ''columns'') True None fresh))
       (state ''x'' (Some \<lparr>floating = True\<rparr>) ''a'') 0 =
     (Inr True, when None True (Some in_group_a) (when (Some ''columns'') True None fresh), 1)"
  using
    floating_window_without_rule [of "state ''x'' (Some \<lparr>floating = True\<rparr>) ''a''"
      "\<lparr>floating = True\<rparr>" fresh 0 None]
    floating_window_without_rule [of "state ''x'' (Some \<lparr>floating = True\<rparr>) ''a''"
      "\<lparr>floating = True\<rparr>"
      "when None True (Some in_group_a) (when (Some ''columns'') True None fresh)" 0 None]
  by (simp add: when_layout when_global fresh_def init_def state_def in_group_a_def
      contains_def call_filter_def)

text \<open>
  C5. For an object just constructed, on which \<^verbatim>\<open>when\<close> was never called, \<^verbatim>\<open>check\<close>
  returns \<^verbatim>\<open>True\<close> in every state.
\<close>

theorem fresh_call_always_fires:
  "check (init call args kwargs :: ('a, 'w) LazyCall) q w = (Inr True, init call args kwargs, w)"
proof -
  let ?self = "init call args kwargs :: ('a, 'w) LazyCall"
  have flag: "self_when_floating ?self"
    by (simp add: init_def)
  have no_rule: "\<not> contains (self_layout_rules ?self) (Layout.name (current_layout q))"
    by (simp add: init_def contains_def)
  have fires: "call_filter ?self q w = (Inr True, w)"
    by (simp add: call_filter_def default_filter_def init_def)
  show ?thesis
  proof (cases "case current_window q of None \<Rightarrow> False | Some win \<Rightarrow> floating win")
    case True
    then obtain win where "current_window q = Some win" and "floating win"
      by (auto split: option.splits)
    then show ?thesis
      using no_rule fires flag by (simp add: check_floating_global)
  next
    case False
    then show ?thesis
      using no_rule fires by (simp add: check_tiled_global)
  qed
qed

theorem fresh_call_always_fires_witness:
  "check fresh (state ''any'' None ''a'') 0 = (Inr True, fresh, 0) \<and>
   check fresh (state ''any'' (Some \<lparr>floating = True\<rparr>) ''b'') 0 = (Inr True, fresh, 0)"
  using
    fresh_call_always_fires [of cmd "[]" "[]" "state ''any'' None ''a''" 0]
    fresh_call_always_fires [of cmd "[]" "[]" "state ''any'' (Some \<lparr>floating = True\<rparr>) ''b''" 0]
  by (simp add: fresh_def)

text \<open>
  C6. The last call of \<^verbatim>\<open>when\<close> wins: two calls for the same layout leave the object as
  the second call alone does, be their arguments equal or not, and so do two calls without
  a layout; hence \<^verbatim>\<open>check\<close> behaves the same after both.
\<close>

theorem when_last_write_wins:
  "when (Some l) fl filt (when (Some l) fl filt self) = when (Some l) fl filt self \<and>
   when (Some l) fl2 filt2 (when (Some l) fl1 filt1 self) = when (Some l) fl2 filt2 self \<and>
   when None fl2 filt2 (when None fl1 filt1 self) = when None fl2 filt2 self \<and>
   check (when (Some l) fl filt (when (Some l) fl filt self)) q w =
     check (when (Some l) fl filt self) q w \<and>
   check (when (Some l) fl2 filt2 (when (Some l) fl1 filt1 self)) q w =
     check (when (Some l) fl2 filt2 self) q w \<and>
   check (when None fl2 filt2 (when None fl1 filt1 self)) q w =
     check (when None fl2 filt2 self) q w"
  by (simp add: when_layout when_global)

theorem when_last_write_wins_witness:
  "when (Some ''columns'') False None (when (Some ''columns'') True None fresh) =
     when (Some ''columns'') False None fresh"
  using when_last_write_wins [where l = "''columns''" and fl = False and filt = None
      and self = fresh and ?fl1.0 = True and ?filt1.0 = None and ?fl2.0 = False
      and ?filt2.0 = None and q = "state ''columns'' None ''a''" and w = 0]
  by (elim conjE)

text \<open>
  C7. \<^verbatim>\<open>when\<close> with a layout \<open>l\<close> changes the entry of \<open>l\<close> only: the global flag, the
  global filter, the entries of all other layouts and the stored call and arguments stay.
  \<^verbatim>\<open>when\<close> without a layout leaves the rule table and the stored call and arguments as
  they were. In both cases the reference returned is the one the method was called on, and
  no other object of the store changes.
\<close>

theorem when_frame:
  "self_when_floating (when (Some l) fl filt self) = self_when_floating self \<and>
   self_filter (when (Some l) fl filt self) = self_filter self \<and>
   (\<forall>l'. l' \<noteq> l \<longrightarrow>
      map_of (self_layout_rules (when (Some l) fl filt self)) l' =
        map_of (self_layout_rules self) l') \<and>
   AList.delete l (self_layout_rules (when (Some l) fl filt self)) =
     AList.delete l (self_layout_rules self) \<and>
   self_layout_rules (when None fl filt self) = self_layout_rules self \<and>
   self_call (when layout fl filt self) = self_call self \<and>
   self_args (when layout fl filt self) = self_args self \<and>
   self_kwargs (when layout fl filt self) = self_kwargs self \<and>
   fst (when_method r layout fl filt s) = r \<and>
   length (snd (when_method r layout fl filt s)) = length s \<and>
   (\<forall>r'. r' \<noteq> r \<longrightarrow> snd (when_method r layout fl filt s) ! r' = s ! r') \<and>
   (r < length s \<longrightarrow>
      snd (when_method r layout fl filt s) ! r = when layout fl filt (s ! r))"
  by (cases layout)
     (simp_all add: when_layout when_global when_method_def update_conv' delete_update_same)

theorem when_frame_witness:
  "map_of (self_layout_rules (when (Some ''columns'') False None
       (when (Some ''monadtall'') True (Some in_group_a) fresh))) ''monadtall'' =
     Some \<lparr>rule_when_floating = Some True, rule_filter = Some in_group_a\<rparr> \<and>
   self_filter (when (Some ''columns'') False None
       (when None True (Some in_group_a) fresh)) = UserFilter in_group_a \<and>
   when_method 0 None False None [fresh, fresh] =
     (0, [when None False None fresh, fresh])"
proof -
  let ?self = "when (Some ''monadtall'') True (Some in_group_a) fresh"
  note layout_frame = when_frame [where l = "''columns''" and fl = False and filt = None
      and self = ?self and layout = None and r = 0 and s = "[]"]
  from layout_frame
  have "\<forall>l'. l' \<noteq> ''columns'' \<longrightarrow>
      map_of (self_layout_rules (when (Some ''columns'') False None ?self)) l' =
        map_of (self_layout_rules ?self) l'"
    by (elim conjE)
  moreover have "''monadtall'' \<noteq> ''columns''"
    by simp
  ultimately
  have "map_of (self_layout_rules (when (Some ''columns'') False None ?self)) ''monadtall'' =
      map_of (self_layout_rules ?self) ''monadtall''"
    by simp
  then have rules: "map_of (self_layout_rules (when (Some ''columns'') False None ?self))
      ''monadtall'' = Some \<lparr>rule_when_floating = Some True, rule_filter = Some in_group_a\<rparr>"
    by (simp add: when_layout [of "''monadtall''"] update_conv')
  from when_frame [where l = "''columns''" and fl = False and filt = None
      and self = "when None True (Some in_group_a) fresh" and layout = None and r = 0
      and s = "[]"]
  have "self_filter (when (Some ''columns'') False None (when None True (Some in_group_a) fresh)) =
      self_filter (when None True (Some in_group_a) fresh)"
    by (elim conjE)
  then have global: "self_filter (when (Some ''columns'') False None
      (when None True (Some in_group_a) fresh)) = UserFilter in_group_a"
    by (simp add: when_global)
  note store_frame = when_frame [where layout = None and fl = False and filt = None and r = 0
      and s = "[fresh, fresh]" and l = "''columns''" and self = fresh]
  from store_frame have "fst (when_method 0 None False None [fresh, fresh]) = 0"
    by (elim conjE)
  moreover from store_frame
  have "length (snd (when_method 0 None False None [fresh, fresh])) = length [fresh, fresh]"
    by (elim conjE)
  moreover from store_frame
  have "\<forall>r'. r' \<noteq> 0 \<longrightarrow>
      snd (when_method 0 None False None [fresh, fresh]) ! r' = [fresh, fresh] ! r'"
    by (elim conjE)
  then have "snd (when_method 0 None False None [fresh, fresh]) ! 1 = [fresh, fresh] ! 1"
    by simp
  moreover from store_frame
  have "0 < length [fresh, fresh] \<longrightarrow>
      snd (when_method 0 None False None [fresh, fresh]) ! 0 =
        when None False None ([fresh, fresh] ! 0)"
    by (elim conjE)
  then have "snd (when_method 0 None False None [fresh, fresh]) ! 0 = when None False None fresh"
    by simp
  ultimately have "when_method 0 None False None [fresh, fresh] =
      (0, [when None False None fresh, fresh])"
    by (cases "when_method 0 None False None [fresh, fresh]")
       (auto simp: length_Suc_conv)
  with rules global show ?thesis
    by simp
qed

text \<open>
  C8. \<^verbatim>\<open>check\<close> raises nothing of its own. For an object whose rule table is complete
  there is one selected predicate \<open>p\<close>, the filter of the rule of the current layout or else
  the global filter, with the flag \<open>fl\<close> beside it. \<^verbatim>\<open>check\<close> either returns \<^verbatim>\<open>False\<close>
  without calling \<open>p\<close> (floating window, false flag) or ends as the call of \<open>p\<close> does: when
  \<open>p\<close> returns a boolean, \<^verbatim>\<open>check\<close> returns a boolean, and every exception that leaves
  \<^verbatim>\<open>check\<close> is the one that \<open>p\<close> raised, passed on as it is.
\<close>

theorem check_raises_only_what_the_predicate_raises:
  assumes "rules_complete (self_layout_rules self)"
  shows "\<exists>p fl.
      (if contains (self_layout_rules self) (Layout.name (current_layout q))
       then map_of (self_layout_rules self) (Layout.name (current_layout q)) =
              Some \<lparr>rule_when_floating = Some fl, rule_filter = Some p\<rparr>
       else fl = self_when_floating self \<and> p = call_filter self) \<and>
      check self q w =
        (if (case current_window q of None \<Rightarrow> False | Some win \<Rightarrow> floating win) \<and> \<not> fl
         then (Inr False, self, w)
         else (fst (p q w), self, snd (p q w))) \<and>
      (\<forall>b. fst (p q w) = Inr b \<longrightarrow> (\<exists>b'. fst (check self q w) = Inr b')) \<and>
      (\<forall>e. fst (check self q w) = Inl e \<longrightarrow>
         fst (p q w) = Inl e \<and> check self q w = (Inl e, self, snd (p q w)))"
proof -
  let ?k = "Layout.name (current_layout q)"
  let ?floating = "case current_window q of None \<Rightarrow> False | Some win \<Rightarrow> floating win"
  have "\<exists>p fl.
      (if contains (self_layout_rules self) ?k
       then map_of (self_layout_rules self) ?k =
              Some \<lparr>rule_when_floating = Some fl, rule_filter = Some p\<rparr>
       else fl = self_when_floating self \<and> p = call_filter self) \<and>
      check self q w =
        (if ?floating \<and> \<not> fl then (Inr False, self, w) else (fst (p q w), self, snd (p q w)))"
  proof (cases "contains (self_layout_rules self) ?k")
    case True
    with assms obtain fl p where
      r: "map_of (self_layout_rules self) ?k =
            Some \<lparr>rule_when_floating = Some fl, rule_filter = Some p\<rparr>"
      using rules_complete_lookup by blast
    have "check self q w =
        (if ?floating \<and> \<not> fl then (Inr False, self, w) else (fst (p q w), self, snd (p q w)))"
    proof (cases ?floating)
      case True
      then obtain win where "current_window q = Some win" and "floating win"
        by (auto split: option.splits)
      with r True show ?thesis
        by (simp add: check_floating_rule)
    next
      case False
      with r show ?thesis
        by (simp add: check_tiled_rule)
    qed
    with True r show ?thesis by auto
  next
    case False
    have "check self q w =
        (if ?floating \<and> \<not> self_when_floating self then (Inr False, self, w)
         else (fst (call_filter self q w), self, snd (call_filter self q w)))"
    proof (cases ?floating)
      case True
      then obtain win where "current_window q = Some win" and "floating win"
        by (auto split: option.splits)
      with False True show ?thesis
        by (simp add: check_floating_global)
    next
      case tiled: False
      with False show ?thesis
        by (simp add: check_tiled_global)
    qed
    with False show ?thesis by auto
  qed
  then obtain p fl where
    sel: "if contains (self_layout_rules self) ?k
       then map_of (self_layout_rules self) ?k =
              Some \<lparr>rule_when_floating = Some fl, rule_filter = Some p\<rparr>
       else fl = self_when_floating self \<and> p = call_filter self"
    and res: "check self q w =
        (if ?floating \<and> \<not> fl then (Inr False, self, w) else (fst (p q w), self, snd (p q w)))"
    by blast
  from res have "\<forall>b. fst (p q w) = Inr b \<longrightarrow> (\<exists>b'. fst (check self q w) = Inr b')"
    by (cases "?floating \<and> \<not> fl") auto
  moreover from res have "\<forall>e. fst (check self q w) = Inl e \<longrightarrow>
         fst (p q w) = Inl e \<and> check self q w = (Inl e, self, snd (p q w))"
    by (auto split: if_splits)
  ultimately show ?thesis
    using sel res by blast
qed

theorem check_raises_only_what_the_predicate_raises_witness:
  "rules_complete (self_layout_rules (when (Some ''columns'') True (Some failing) fresh)) \<and>
   check (when (Some ''columns'') True (Some failing) fresh)
       (state ''columns'' (Some \<lparr>floating = True\<rparr>) ''a'') 0 =
     (Inl (Raised ''failing''), when (Some ''columns'') True (Some failing) fresh, 1)"
proof -
  let ?self = "when (Some ''columns'') True (Some failing) fresh"
  let ?q = "state ''columns'' (Some \<lparr>floating = True\<rparr>) ''a''"
  have inv: "rules_complete (self_layout_rules ?self)"
    by (rule rules_complete_when) (simp add: fresh_def init_def rules_complete_Nil)
  have rule: "map_of (self_layout_rules ?self) (Layout.name (current_layout ?q)) =
      Some \<lparr>rule_when_floating = Some True, rule_filter = Some failing\<rparr>"
    by (simp add: when_layout fresh_def init_def state_def)
  then have key: "contains (self_layout_rules ?self) (Layout.name (current_layout ?q))"
    by (simp add: contains_map_of)
  have win: "case current_window ?q of None \<Rightarrow> False | Some win \<Rightarrow> floating win"
    by (simp add: state_def)
  from check_raises_only_what_the_predicate_raises [OF inv, of ?q 0]
  obtain p fl where
    sel: "if contains (self_layout_rules ?self) (Layout.name (current_layout ?q))
       then map_of (self_layout_rules ?self) (Layout.name (current_layout ?q)) =
              Some \<lparr>rule_when_floating = Some fl, rule_filter = Some p\<rparr>
       else fl = self_when_floating ?self \<and> p = call_filter ?self"
    and res: "check ?self ?q 0 =
        (if (case current_window ?q of None \<Rightarrow> False | Some win \<Rightarrow> floating win) \<and> \<not> fl
         then (Inr False, ?self, 0)
         else (fst (p ?q 0), ?self, snd (p ?q 0)))"
    by blast
  from sel key rule have "fl" and "p = failing"
    by simp_all
  with res inv show ?thesis
    by (simp add: failing_def)
qed

text \<open>
  C9. \<^verbatim>\<open>execute\<close> always returns a reference to a new object: the reference is not one
  of the store before the call, the objects of that store are kept, and the accessors of
  the new object give the call and the arguments passed in. \<^verbatim>\<open>has_command\<close> and
  \<^verbatim>\<open>has_item\<close> are true for all arguments.
\<close>

theorem execute_returns_new_lazy_call:
  "fst (execute call args kwargs (s :: ('a, 'w) store)) = length s \<and>
   \<not> fst (execute call args kwargs s) < length s \<and>
   length (snd (execute call args kwargs s)) = Suc (length s) \<and>
   take (length s) (snd (execute call args kwargs s)) = s \<and>
   snd (execute call args kwargs s) ! fst (execute call args kwargs s) = init call args kwargs \<and>
   self_call (init call args kwargs :: ('a, 'w) LazyCall) = call \<and>
   LazyCall_selectors (init call args kwargs :: ('a, 'w) LazyCall) =
     CommandGraphCall.selectors call \<and>
   LazyCall_name (init call args kwargs :: ('a, 'w) LazyCall) = CommandGraphCall.name call \<and>
   LazyCall_args (init call args kwargs :: ('a, 'w) LazyCall) = args \<and>
   LazyCall_kwargs (init call args kwargs :: ('a, 'w) LazyCall) = kwargs \<and>
   has_command node command \<and>
   has_item node' object_type item"
  by (simp add: execute_def init_def LazyCall_selectors_def LazyCall_name_def
      LazyCall_args_def LazyCall_kwargs_def has_command_def has_item_def)

theorem execute_returns_new_lazy_call_witness:
  "fst (execute cmd [''x''] [(''k'', ''v'')] [fresh]) = 1 \<and>
   LazyCall_name (init cmd [''x''] [(''k'', ''v'')] :: (string, nat) LazyCall) = ''next'' \<and>
   LazyCall_args (init cmd [''x''] [(''k'', ''v'')] :: (string, nat) LazyCall) = [''x'']"
  using execute_returns_new_lazy_call [where call = cmd and args = "[''x'']"
      and kwargs = "[(''k'', ''v'')]" and s = "[fresh]" and node = "()" and command = "''next''"
      and node' = "()" and object_type = "''layout''" and item = "ItemInt 0"]
  by (simp add: cmd_def)

text \<open>
  C10. \<^verbatim>\<open>check\<close> leaves the object as it was: the rule table, the global flag and the
  global filter are unchanged, and no key is added to the table, although indexing it with
  a missing key would add one (\<open>defaultdict_getitem_inserts\<close>).
\<close>

theorem check_does_not_change_self:
  "fst (snd (check self q w)) = self \<and>
   self_layout_rules (fst (snd (check self q w))) = self_layout_rules self \<and>
   self_when_floating (fst (snd (check self q w))) = self_when_floating self \<and>
   self_filter (fst (snd (check self q w))) = self_filter self \<and>
   contains (self_layout_rules (fst (snd (check self q w)))) k =
     contains (self_layout_rules self) k"
proof -
  have "fst (snd (check self q w)) = self"
  proof (cases "map_of (self_layout_rules self) (Layout.name (current_layout q))")
    case None
    then show ?thesis
      by (simp add: check_def Let_def contains_map_of split: option.splits prod.splits)
  next
    case (Some r)
    then show ?thesis
      by (simp add: check_def Let_def contains_map_of layout_rules_when_floating_present
          call_layout_filter_def layout_rules_filter_present
          split: option.splits prod.splits sum.splits)
  qed
  then show ?thesis by simp
qed

theorem check_does_not_change_self_witness:
  "self_layout_rules (fst (snd (check fresh (state ''columns'' None ''a'') 0))) = [] \<and>
   \<not> contains (self_layout_rules (fst (snd (check fresh (state ''columns'' None ''a'') 0))))
       ''columns''"
  using check_does_not_change_self [of fresh "state ''columns'' None ''a''" 0 "''columns''"]
  by (simp add: fresh_def init_def contains_def)

end
